theory Spec2Isabelle
  imports Main
begin

section \<open>Bytes, strings and outcomes\<close>

text \<open>
  A Go \<^verbatim>\<open>string\<close> and a Go \<^verbatim>\<open>[]byte\<close> are both sequences of bytes; \<^typ>\<open>char\<close> is a
  byte, so both are modelled as \<^typ>\<open>string\<close>. \<^verbatim>\<open>len\<close> is \<^const>\<open>length\<close>. A nil slice and
  an empty slice are both the empty list.
\<close>

type_synonym bytes = string

definition TAB :: char where "TAB = CHR 0x09"
definition LF :: char where "LF = CHR 0x0A"
definition CR :: char where "CR = CHR 0x0D"
definition QUOTE :: char where "QUOTE = CHR 0x22"

text \<open>
  A Go function either returns its results or panics; a panic that nobody recovers from
  unwinds every caller, so it is an outcome of its own and not an error value.
\<close>

datatype 'a outcome = Panic | Return 'a

section \<open>The delimited-text reader used by parseCSV\<close>

text \<open>
  \<^verbatim>\<open>parseCSV\<close> hands its bytes to the standard library's \<^verbatim>\<open>encoding/csv\<close> reader, built by
  \<^verbatim>\<open>csv.NewReader\<close> over a \<^verbatim>\<open>bytes.Reader\<close> and changed in one setting only:
  \<^verbatim>\<open>reader.Comma = '\t'\<close>. All other settings keep their defaults: \<^verbatim>\<open>Comment = 0\<close>,
  \<^verbatim>\<open>FieldsPerRecord = 0\<close>, \<^verbatim>\<open>LazyQuotes = false\<close>, \<^verbatim>\<open>TrimLeadingSpace = false\<close>. The library
  is not part of the repository; the definitions of this section follow the library's
  \<^verbatim>\<open>readLine\<close>, \<^verbatim>\<open>lengthNL\<close>, \<^verbatim>\<open>readRecord\<close> and \<^verbatim>\<open>ReadAll\<close> under exactly these settings.
  An in-memory reader fails with end of input only, so the read error is a flag. A
  \<^verbatim>\<open>ParseError\<close> is kept by its kind; its line and column numbers are not tracked. The tab
  and the quote are single bytes below \<^verbatim>\<open>0x80\<close>, so searching for the rune is searching
  for the byte.
\<close>

datatype csv_error = ErrBareQuote | ErrQuote | ErrFieldCount

text \<open>\<^verbatim>\<open>bufio.Reader.ReadSlice('\n')\<close>: the bytes up to and including the first line feed;
  at the end of the input, what is left together with the end-of-input flag.\<close>

fun ReadSlice :: "bytes \<Rightarrow> bytes \<times> bool \<times> bytes" where
  "ReadSlice [] = ([], True, [])"
| "ReadSlice (c # cs) =
     (if c = LF then ([LF], False, cs)
      else (case ReadSlice cs of (l, eof, r) \<Rightarrow> (c # l, eof, r)))"

text \<open>\<^verbatim>\<open>Reader.readLine\<close>: a last line without line feed is no error and loses a trailing
  carriage return; a line ending in carriage return and line feed ends in line feed.\<close>

definition readLine :: "bytes \<Rightarrow> bytes \<times> bool \<times> bytes" where
  "readLine input =
     (case ReadSlice input of (line, eof, rest) \<Rightarrow>
        (let (line1, eof1) =
               (if 0 < length line \<and> eof
                then (if last line = CR then butlast line else line, False)
                else (line, eof));
             n = length line1;
             line2 =
               (if 2 \<le> n \<and> line1 ! (n - 2) = CR \<and> line1 ! (n - 1) = LF
                then take (n - 2) line1 @ [LF] else line1)
         in (line2, eof1, rest)))"

definition lengthNL :: "bytes \<Rightarrow> nat" where
  "lengthNL b = (if 0 < length b \<and> last b = LF then 1 else 0)"

text \<open>\<^verbatim>\<open>bytes.IndexByte\<close>: the position of the first occurrence, when there is one.\<close>

fun IndexByte :: "bytes \<Rightarrow> char \<Rightarrow> nat option" where
  "IndexByte [] c = None"
| "IndexByte (b # bs) c =
     (if b = c then Some 0 else map_option Suc (IndexByte bs c))"

lemma ReadSlice_length:
  "ReadSlice input = (line, eof, rest) \<Longrightarrow> length line + length rest = length input"
  by (induction input arbitrary: line eof rest) (auto split: if_splits prod.splits)

lemma ReadSlice_not_eof: "ReadSlice input = (line, False, rest) \<Longrightarrow> line \<noteq> []"
  by (induction input arbitrary: line rest) (auto split: if_splits prod.splits)

lemma readLine_length:
  "readLine input = (line, eof, rest) \<Longrightarrow> length line + length rest \<le> length input"
  by (auto simp: readLine_def Let_def split: prod.splits if_splits dest!: ReadSlice_length)

lemma readLine_consumes:
  assumes "readLine input = (line, False, rest)"
  shows "length rest < length input"
proof -
  obtain l e r where rs: "ReadSlice input = (l, e, r)"
    by (cases "ReadSlice input") auto
  from assms rs have "rest = r" and "l \<noteq> []"
    by (auto simp: readLine_def Let_def split: prod.splits if_splits
        dest: ReadSlice_not_eof)
  with ReadSlice_length [OF rs] show ?thesis
    by (cases l) auto
qed

lemma readLine_shorter:
  "(line1, eof, rest) = readLine input \<Longrightarrow> line \<noteq> [] \<Longrightarrow>
     length line1 + length rest < length line + length input"
  using readLine_length [of input line1 eof rest] by (cases line) auto

lemma IndexByte_less: "IndexByte line c = Some i \<Longrightarrow> i < length line"
  by (induction line arbitrary: i) (auto split: if_splits)

text \<open>The head of \<^verbatim>\<open>readRecord\<close>: read lines until one is not empty (there is no comment
  character), or the input ends.\<close>

function nextLine :: "bytes \<Rightarrow> bytes \<times> bool \<times> bytes" where
  "nextLine input =
     (case readLine input of (line, eof, rest) \<Rightarrow>
        if \<not> eof \<and> length line = lengthNL line then nextLine rest
        else (line, eof, rest))"
  by pat_completeness auto
termination
  by (relation "measure length") (auto dest: readLine_consumes [OF sym])

declare nextLine.simps [simp del]

text \<open>The field loop of \<^verbatim>\<open>readRecord\<close> (label \<^verbatim>\<open>parseField\<close>) and, inside it, the loop over
  a quoted field, which reads further lines while the quote stays open. The arguments
  are the rest of the current line, the unread input, the fields completed so far and,
  for the quoted field, its bytes so far.\<close>

function parseField :: "bytes \<Rightarrow> bytes \<Rightarrow> string list \<Rightarrow> string list \<times> csv_error option \<times> bytes"
  and quotedField :: "bytes \<Rightarrow> bytes \<Rightarrow> string list \<Rightarrow> string \<Rightarrow> string list \<times> csv_error option \<times> bytes"
where
  "parseField line input fields =
     (if line = [] \<or> hd line \<noteq> QUOTE then
        (case IndexByte line TAB of
           Some i \<Rightarrow>
             (let field = take i line in
              if QUOTE \<in> set field then (fields, Some ErrBareQuote, input)
              else parseField (drop (i + 1) line) input (fields @ [field]))
         | None \<Rightarrow>
             (let field = take (length line - lengthNL line) line in
              if QUOTE \<in> set field then (fields, Some ErrBareQuote, input)
              else (fields @ [field], None, input)))
      else quotedField (tl line) input fields [])"
| "quotedField line input fields buf =
     (case IndexByte line QUOTE of
        Some i \<Rightarrow>
          (let buf1 = buf @ take i line; line1 = drop (i + 1) line in
           if line1 \<noteq> [] \<and> hd line1 = QUOTE then
             quotedField (tl line1) input fields (buf1 @ [QUOTE])
           else if line1 \<noteq> [] \<and> hd line1 = TAB then
             parseField (tl line1) input (fields @ [buf1])
           else if lengthNL line1 = length line1 then (fields @ [buf1], None, input)
           else (fields, Some ErrQuote, input))
      | None \<Rightarrow>
          (if 0 < length line then
             (case readLine input of (line1, eof, rest) \<Rightarrow>
                quotedField line1 rest fields (buf @ line))
           else (fields, Some ErrQuote, input)))"
  by pat_completeness auto
termination
  by (relation "measure (\<lambda>x. case x of
         Inl (line, input, fields) \<Rightarrow> length line + length input
       | Inr (line, input, fields, buf) \<Rightarrow> length line + length input)")
     (auto dest: IndexByte_less intro: readLine_shorter)

declare parseField.simps [simp del] quotedField.simps [simp del]

lemma parseField_rest:
  "length (snd (snd (parseField line input fields))) \<le> length input"
  "length (snd (snd (quotedField line input fields buf))) \<le> length input"
proof (induction line input fields and line input fields buf
    rule: parseField_quotedField.induct)
  case (1 line input fields)
  then show ?case
    by (subst parseField.simps) (auto simp: Let_def split: option.splits)
next
  case (2 line input fields buf)
  show ?case
  proof (cases "IndexByte line QUOTE")
    case (Some i)
    with 2 show ?thesis
      by (subst quotedField.simps) (auto simp: Let_def)
  next
    case None
    show ?thesis
    proof (cases "0 < length line")
      case True
      obtain line1 eof rest where rl: "readLine input = (line1, eof, rest)"
        by (cases "readLine input") auto
      have "length (snd (snd (quotedField line1 rest fields (buf @ line)))) \<le> length rest"
        using "2.IH" None True rl [symmetric] by blast
      moreover from readLine_length [OF rl] have "length rest \<le> length input" by simp
      ultimately show ?thesis
        using None True rl by (subst quotedField.simps) simp
    next
      case False
      with None show ?thesis by (subst quotedField.simps) simp
    qed
  qed
qed

text \<open>\<^verbatim>\<open>Reader.readRecord\<close>. The reader's \<^verbatim>\<open>FieldsPerRecord\<close> is state: it starts at 0, the
  first record sets it to its number of fields, and a later record with another number
  of fields is \<^verbatim>\<open>ErrFieldCount\<close>.\<close>

datatype record_result =
    AtEOF
  | Failed csv_error
  | Record "string list" bytes nat

definition readRecord :: "bytes \<Rightarrow> nat \<Rightarrow> record_result" where
  "readRecord input fieldsPerRecord =
     (case nextLine input of (line, eof, rest) \<Rightarrow>
        if eof then AtEOF
        else (case parseField line rest [] of (dst, err, rest1) \<Rightarrow>
          (let err1 =
                 (if 0 < fieldsPerRecord \<and> length dst \<noteq> fieldsPerRecord \<and> err = None
                  then Some ErrFieldCount else err);
               fieldsPerRecord1 =
                 (if 0 < fieldsPerRecord then fieldsPerRecord else length dst)
           in (case err1 of
                 Some e \<Rightarrow> Failed e
               | None \<Rightarrow> Record dst rest1 fieldsPerRecord1))))"

lemma nextLine_consumes:
  "nextLine input = (line, False, rest) \<Longrightarrow> length rest < length input"
proof (induction input rule: nextLine.induct)
  case (1 input)
  obtain l e r where rl: "readLine input = (l, e, r)"
    by (cases "readLine input") auto
  show ?case
  proof (cases "\<not> e \<and> length l = lengthNL l")
    case True
    with "1.prems" rl have "nextLine r = (line, False, rest)"
      by (subst (asm) nextLine.simps) simp
    from "1.IH" [OF rl [symmetric] refl True this] readLine_consumes [of input l r] rl True
    show ?thesis by simp
  next
    case False
    with "1.prems" rl have "readLine input = (line, False, rest)"
      by (subst (asm) nextLine.simps) auto
    then show ?thesis by (rule readLine_consumes)
  qed
qed

lemma readRecord_consumes:
  assumes "readRecord input n = Record dst rest m"
  shows "length rest < length input"
proof -
  obtain line eof r where nl: "nextLine input = (line, eof, r)"
    by (cases "nextLine input") auto
  from assms nl have ne: "\<not> eof" and "rest = snd (snd (parseField line r []))"
    by (auto simp: readRecord_def Let_def split: if_splits prod.splits option.splits)
  with parseField_rest(1) [of line r "[]"] nextLine_consumes [of input line r] nl
  show ?thesis by simp
qed

text \<open>\<^verbatim>\<open>Reader.ReadAll\<close>: records until the end of the input; the first error discards
  the records read so far.\<close>

function ReadAll_loop :: "bytes \<Rightarrow> nat \<Rightarrow> string list list \<Rightarrow> csv_error + string list list" where
  "ReadAll_loop input fieldsPerRecord records =
     (case readRecord input fieldsPerRecord of
        AtEOF \<Rightarrow> Inr records
      | Failed e \<Rightarrow> Inl e
      | Record dst rest fieldsPerRecord1 \<Rightarrow>
          ReadAll_loop rest fieldsPerRecord1 (records @ [dst]))"
  by pat_completeness auto
termination
  by (relation "measure (\<lambda>(input, n, records). length input)")
     (auto dest: readRecord_consumes)

declare ReadAll_loop.simps [simp del]

definition ReadAll :: "bytes \<Rightarrow> csv_error + string list list" where
  "ReadAll data = ReadAll_loop data 0 []"

section \<open>Errors\<close>

text \<open>
  A Go \<^verbatim>\<open>error\<close> is \<^verbatim>\<open>nil\<close> or a value; an \<^verbatim>\<open>error\<close> result is an \<^typ>\<open>'a option\<close> with
  \<^const>\<open>None\<close> for \<^verbatim>\<open>nil\<close>. The errors the package builds with \<^verbatim>\<open>fmt.Errorf\<close> are kept by
  their format and arguments:
  \<^item> \<open>CountryCodeBytes cc got want\<close>: \<^verbatim>\<open>"country code %q has %d bytes, want %d"\<close>;
  \<^item> \<open>StatusNot200 status\<close>: \<^verbatim>\<open>"status = %s, want 200"\<close>;
  \<^item> \<open>ReadResponseBody e\<close>: \<^verbatim>\<open>"read response body: %w"\<close>;
  \<^item> \<open>CreateUnzippingReader e\<close>: \<^verbatim>\<open>"create unzipping reader: %w"\<close>;
  \<^item> \<open>ZipfileMissing filename\<close>: \<^verbatim>\<open>"zipfile missing %s"\<close>;
  \<^item> \<open>OpenZipped filename e\<close>: \<^verbatim>\<open>"open zipped %s: %w"\<close>.

  \<open>Joined\<close> is the value of \<^verbatim>\<open>errors.Join\<close>, \<open>CSV\<close> an error of the delimited-text reader,
  and \<open>LibraryError\<close> any other error of a library (transport, archive format, reading),
  by its message.
\<close>

datatype error =
    CountryCodeBytes string nat nat
  | StatusNot200 string
  | ReadResponseBody error
  | CreateUnzippingReader error
  | ZipfileMissing string
  | OpenZipped string error
  | Joined "error list"
  | CSV csv_error
  | LibraryError string

text \<open>\<^verbatim>\<open>errors.Join\<close> drops the nil errors and is nil when nothing is left.\<close>

definition errors_Join :: "error option list \<Rightarrow> error option" where
  "errors_Join errs =
     (case List.map_filter id errs of
        [] \<Rightarrow> None
      | e # es \<Rightarrow> Some (Joined (e # es)))"

section \<open>Entries and parseCSV\<close>

text \<open>
  \<^verbatim>\<open>type Entry [12]string\<close>: an array of twelve strings, modelled as a list whose length is
  12. \<^verbatim>\<open>var e Entry\<close> is the array of twelve empty strings. An assignment \<^verbatim>\<open>e[ii] = col\<close>
  with \<^verbatim>\<open>ii\<close> outside the array is a run-time panic (index out of range), which Go
  checks on every indexing of an array by a variable.
\<close>

type_synonym Entry = "string list"

definition zeroEntry :: Entry where
  "zeroEntry = replicate 12 []"

text \<open>The inner loop of \<^verbatim>\<open>parseCSV\<close>, \<^verbatim>\<open>for ii, col := range columns { e[ii] = col }\<close>, from
  index \<open>ii\<close> on.\<close>

fun setColumns :: "nat \<Rightarrow> string list \<Rightarrow> Entry \<Rightarrow> Entry outcome" where
  "setColumns ii [] e = Return e"
| "setColumns ii (col # columns) e =
     (if ii < length e then setColumns (Suc ii) columns (e[ii := col]) else Panic)"

text \<open>The outer loop, \<^verbatim>\<open>for i, columns := range table { ...; es[i] = e }\<close>: one entry per
  row, in the order of the rows.\<close>

fun fillEntries :: "string list list \<Rightarrow> Entry list outcome" where
  "fillEntries [] = Return []"
| "fillEntries (columns # table) =
     (case setColumns 0 columns zeroEntry of
        Panic \<Rightarrow> Panic
      | Return e \<Rightarrow>
          (case fillEntries table of
             Panic \<Rightarrow> Panic
           | Return es \<Rightarrow> Return (e # es)))"

text \<open>\<^verbatim>\<open>parseCSV\<close> returns \<^verbatim>\<open>(nil, err)\<close> when the reader fails and \<^verbatim>\<open>(es, nil)\<close> otherwise.\<close>

definition parseCSV :: "bytes \<Rightarrow> (Entry list \<times> error option) outcome" where
  "parseCSV data =
     (case ReadAll data of
        Inl e \<Rightarrow> Return ([], Some (CSV e))
      | Inr table \<Rightarrow>
          (case fillEntries table of
             Panic \<Rightarrow> Panic
           | Return es \<Rightarrow> Return (es, None)))"

section \<open>The libraries around the pipeline\<close>

text \<open>
  The HTTP client, the archive reader and \<^verbatim>\<open>strings.ToUpper\<close> belong to the standard
  library. The package's functions are modelled over a record of what these primitives
  answer, so every theorem holds for every transport, every archive reader and every
  case mapping.

  A request is what \<^verbatim>\<open>download\<close> sets in it: method, URL and header fields (in the order
  they were added). A response is what \<^verbatim>\<open>download\<close> reads of it: \<^verbatim>\<open>StatusCode\<close>, \<^verbatim>\<open>Status\<close>,
  the \<^verbatim>\<open>Header\<close> map (a key without entry has no values) and what \<^verbatim>\<open>io.ReadAll\<close> gives on the
  body: the bytes read and the error, nil at the end of the body.
\<close>

record request =
  Method :: string
  URL :: string
  RequestHeader :: "(string \<times> string) list"

record response =
  StatusCode :: int
  Status :: string
  Header :: "string \<Rightarrow> string list"
  Body_ReadAll :: "bytes \<times> error option"

text \<open>A file of an archive: its name and what \<^verbatim>\<open>Open\<close> gives, an error or a reader; of the
  reader, what \<^verbatim>\<open>io.ReadAll\<close> and \<^verbatim>\<open>Close\<close> give.\<close>

record zip_ReadCloser =
  rc_ReadAll :: "bytes \<times> error option"
  rc_Close :: "error option"

record zip_File =
  Name :: string
  Open :: "error + zip_ReadCloser"

record library =
  strings_ToUpper :: "string \<Rightarrow> string"
  http_NewRequest :: "string \<Rightarrow> string \<Rightarrow> error + request"
  HTTPClient_Do :: "request \<Rightarrow> error + response"
  zip_NewReader :: "bytes \<Rightarrow> error + zip_File list"

definition StatusOK :: int where "StatusOK = 200"
definition StatusNotModified :: int where "StatusNotModified = 304"

text \<open>\<^verbatim>\<open>http.Header.Get\<close>: the first value of the key, or the empty string. The key
  \<^verbatim>\<open>"Etag"\<close> that \<^verbatim>\<open>download\<close> asks for is in canonical form already.\<close>

definition Header_Get :: "(string \<Rightarrow> string list) \<Rightarrow> string \<Rightarrow> string" where
  "Header_Get h key = (case h key of [] \<Rightarrow> [] | v # vs \<Rightarrow> v)"

text \<open>\<^verbatim>\<open>req.Header.Add(key, value)\<close>: one more value for the key, which is in canonical
  form already.\<close>

definition Header_Add :: "request \<Rightarrow> string \<Rightarrow> string \<Rightarrow> request" where
  "Header_Add req key v = req\<lparr>RequestHeader := RequestHeader req @ [(key, v)]\<rparr>"

section \<open>The pipeline\<close>

definition normalizeCountryCode :: "library \<Rightarrow> string \<Rightarrow> string \<times> error option" where
  "normalizeCountryCode lib cc =
     (let r = strings_ToUpper lib cc in
      if length cc \<noteq> 2 then (r, Some (CountryCodeBytes cc (length cc) 2))
      else (r, None))"

definition downloadURL :: "string \<Rightarrow> string" where
  "downloadURL cc = ''https://download.geonames.org/export/zip/'' @ cc @ ''.zip''"

text \<open>\<^verbatim>\<open>download\<close> returns the body, the modified flag, the token and the error; the model
  also returns the requests handed to \<^verbatim>\<open>HTTPClient.Do\<close>, which are the network calls made.
  The deferred \<^verbatim>\<open>Body.Close\<close> assigns to the local \<^verbatim>\<open>err\<close> after the results are set (they
  are unnamed), so it changes no result.\<close>

definition download ::
  "library \<Rightarrow> string \<Rightarrow> string \<Rightarrow> (bytes \<times> bool \<times> string \<times> error option) \<times> request list" where
  "download lib url etag =
     (case http_NewRequest lib ''GET'' url of
        Inl e \<Rightarrow> (([], False, [], Some e), [])
      | Inr req0 \<Rightarrow>
          (let req = Header_Add req0 ''If-None-Match'' etag in
           (case HTTPClient_Do lib req of
              Inl e \<Rightarrow> (([], False, [], Some e), [req])
            | Inr resp \<Rightarrow>
                (if StatusCode resp = StatusNotModified then (([], False, etag, None), [req])
                 else if StatusCode resp \<noteq> StatusOK then
                   (([], False, [], Some (StatusNot200 (Status resp))), [req])
                 else (case Body_ReadAll resp of
                         (body, Some e) \<Rightarrow> (([], False, [], Some (ReadResponseBody e)), [req])
                       | (body, None) \<Rightarrow>
                           ((body, True, Header_Get (Header resp) ''Etag'', None), [req]))))))"

definition zippedFile :: "string \<Rightarrow> string" where
  "zippedFile cc = cc @ ''.txt''"

text \<open>The search loop of \<^verbatim>\<open>unzipFile\<close>: the first file of that name.\<close>

fun findFile :: "zip_File list \<Rightarrow> string \<Rightarrow> zip_File option" where
  "findFile [] filename = None"
| "findFile (f # fs) filename = (if Name f = filename then Some f else findFile fs filename)"

text \<open>\<^verbatim>\<open>unzipFile\<close> has the named result \<^verbatim>\<open>err\<close>; on the last path the deferred function joins
  it with the error of \<^verbatim>\<open>Close\<close>.\<close>

definition unzipFile :: "library \<Rightarrow> bytes \<Rightarrow> string \<Rightarrow> bytes \<times> error option" where
  "unzipFile lib data filename =
     (case zip_NewReader lib data of
        Inl e \<Rightarrow> ([], Some (CreateUnzippingReader e))
      | Inr files \<Rightarrow>
          (case findFile files filename of
             None \<Rightarrow> ([], Some (ZipfileMissing filename))
           | Some file \<Rightarrow>
               (case Open file of
                  Inl e \<Rightarrow> ([], Some (OpenZipped filename e))
                | Inr rc \<Rightarrow>
                    (case rc_ReadAll rc of (content, e) \<Rightarrow>
                       (content, errors_Join [e, rc_Close rc])))))"

text \<open>\<^verbatim>\<open>FetchCountry\<close> has four named results, which every \<^verbatim>\<open>return\<close> hands back as they
  are at that point; \<^verbatim>\<open>entries\<close> is assigned by the call of \<^verbatim>\<open>parseCSV\<close> only. The model
  pairs the outcome with the network calls made.\<close>

record results =
  entries :: "Entry list"
  modified :: bool
  newEtag :: string
  err :: "error option"

definition FetchCountry :: "library \<Rightarrow> string \<Rightarrow> string \<Rightarrow> results outcome \<times> request list" where
  "FetchCountry lib cc etag =
     (case normalizeCountryCode lib cc of
        (cc1, Some e) \<Rightarrow>
          (Return \<lparr>entries = [], modified = False, newEtag = [], err = Some e\<rparr>, [])
      | (cc1, None) \<Rightarrow>
          (let url = downloadURL cc1 in
           (case download lib url etag of
              ((zipData, modified1, newEtag1, err1), calls) \<Rightarrow>
                if \<not> modified1 \<or> err1 \<noteq> None then
                  (Return \<lparr>entries = [], modified = modified1, newEtag = newEtag1,
                     err = err1\<rparr>, calls)
                else
                  (let filename = zippedFile cc1 in
                   (case unzipFile lib zipData filename of
                      (csvData, Some e) \<Rightarrow>
                        (Return \<lparr>entries = [], modified = modified1, newEtag = newEtag1,
                           err = Some e\<rparr>, calls)
                    | (csvData, None) \<Rightarrow>
                        (case parseCSV csvData of
                           Panic \<Rightarrow> (Panic, calls)
                         | Return (es, err2) \<Rightarrow>
                             (Return \<lparr>entries = es, modified = modified1,
                                newEtag = newEtag1, err = err2\<rparr>, calls)))))))"

section \<open>Lines, rows and sample data\<close>

text \<open>\<^verbatim>\<open>strings.Join(fields, "\t")\<close>: the line of a row of fields.\<close>

fun joinTab :: "string list \<Rightarrow> string" where
  "joinTab [] = []"
| "joinTab [f] = f"
| "joinTab (f # g # fs) = f @ TAB # joinTab (g # fs)"

text \<open>A field without tab, double quote and line feed; a row of such fields whose line
  is not empty and does not end in a carriage return; the text of rows, one line each,
  every line ended by a line feed.\<close>

definition plainField :: "string \<Rightarrow> bool" where
  "plainField f = (TAB \<notin> set f \<and> QUOTE \<notin> set f \<and> LF \<notin> set f)"

definition plainRow :: "string list \<Rightarrow> bool" where
  "plainRow r = (list_all plainField r \<and> joinTab r \<noteq> [] \<and> last (joinTab r) \<noteq> CR)"

definition joinLines :: "string list list \<Rightarrow> bytes" where
  "joinLines rows = concat (map (\<lambda>r. joinTab r @ [LF]) rows)"

text \<open>The entry of a row of at most twelve columns: the columns, then empty strings.\<close>

definition padEntry :: "string list \<Rightarrow> Entry" where
  "padEntry columns = columns @ replicate (12 - length columns) []"

text \<open>
  Sample libraries, after the transports of the package's tests
  (\<^verbatim>\<open>TestFetchCountry_NotModified\<close>, \<^verbatim>\<open>TestFetchCountry_Modified\<close>): a case mapping that
  is \<^verbatim>\<open>strings.ToUpper\<close> on ASCII letters, a request constructor that accepts every URL,
  a transport that answers 304, a transport that answers 200 with a body and the token
  \<^verbatim>\<open>new_etag\<close>, and an archive reader that finds the given files in every body.
\<close>

definition asciiUpper :: "char \<Rightarrow> char" where
  "asciiUpper c =
     (if 97 \<le> (of_char c :: nat) \<and> (of_char c :: nat) \<le> 122
      then char_of (of_char c - 32 :: nat) else c)"

definition sampleNewRequest :: "string \<Rightarrow> string \<Rightarrow> error + request" where
  "sampleNewRequest m u = Inr \<lparr>Method = m, URL = u, RequestHeader = []\<rparr>"

definition notModifiedTransport :: "request \<Rightarrow> error + response" where
  "notModifiedTransport r =
     Inr \<lparr>StatusCode = StatusNotModified, Status = [], Header = (\<lambda>k. []),
          Body_ReadAll = ([], None)\<rparr>"

definition modifiedTransport :: "bytes \<Rightarrow> request \<Rightarrow> error + response" where
  "modifiedTransport body r =
     Inr \<lparr>StatusCode = StatusOK, Status = [],
          Header = (\<lambda>k. if k = ''Etag'' then [''new_etag''] else []),
          Body_ReadAll = (body, None)\<rparr>"

definition memberFile :: "string \<Rightarrow> bytes \<Rightarrow> zip_File" where
  "memberFile name content =
     \<lparr>Name = name, Open = Inr \<lparr>rc_ReadAll = (content, None), rc_Close = None\<rparr>\<rparr>"

definition sampleLibrary :: "(request \<Rightarrow> error + response) \<Rightarrow> zip_File list \<Rightarrow> library" where
  "sampleLibrary transport files =
     \<lparr>strings_ToUpper = map asciiUpper, http_NewRequest = sampleNewRequest,
      HTTPClient_Do = transport, zip_NewReader = (\<lambda>data. Inr files)\<rparr>"

text \<open>Rows after the samples of \<^verbatim>\<open>TestFetchCountry_Modified\<close>: two rows of twelve fields,
  a row of thirteen columns, and a line of twelve fields one of which holds double
  quotes.\<close>

definition sampleRows :: "string list list" where
  "sampleRows =
     [[''DE'', ''54668'', ''Ferschweiler'', ''Rheinland-Pfalz'', ''RP'', [], ''00'',
       ''Eifelkreis'', ''07232'', ''49.8667'', ''6.4'', ''4''],
      [''DE'', ''56479'', ''Neustadt (Westerwald)'', ''Rheinland-Pfalz'', ''RP'', [], ''00'',
       ''Westerwaldkreis'', ''07143'', ''50.6333'', ''8.0333'', []]]"

definition thirteenColumns :: "string list" where
  "thirteenColumns =
     [''DE'', ''54668'', ''Ferschweiler'', ''Rheinland-Pfalz'', ''RP'', [], ''00'',
      ''Eifelkreis'', ''07232'', ''49.8667'', ''6.4'', ''4'', ''extra'']"

definition quotedLine :: bytes where
  "quotedLine =
     joinTab [''DE'', ''54668'', ''Ferschweiler '' @ [QUOTE] @ ''Ort'' @ [QUOTE],
       ''Rheinland-Pfalz'', ''RP'', [], ''00'', ''Eifelkreis'', ''07232'', ''49.8667'',
       ''6.4'', ''4''] @ [LF]"

text \<open>Twelve fields that are all populated, and two lines with two fields and one.\<close>

definition populatedFields :: "string list" where
  "populatedFields =
     [''DE'', ''54668'', ''Ferschweiler'', ''Rheinland-Pfalz'', ''RP'', ''Eifel'', ''00'',
      ''Eifelkreis'', ''07232'', ''49.8667'', ''6.4'', ''4'']"

definition raggedLines :: bytes where
  "raggedLines = joinLines [[''DE'', ''54668''], [''DE'']]"

section \<open>The reader on plain rows\<close>

lemma IndexByte_absent: "c \<notin> set line \<Longrightarrow> IndexByte line c = None"
  by (induction line) auto

lemma IndexByte_first: "c \<notin> set f \<Longrightarrow> IndexByte (f @ c # rest) c = Some (length f)"
  by (induction f) auto

lemma lengthNL_plain: "LF \<notin> set f \<Longrightarrow> lengthNL f = 0"
  by (cases f rule: rev_cases) (auto simp: lengthNL_def)

lemma lengthNL_LF: "lengthNL (f @ [LF]) = 1"
  by (simp add: lengthNL_def)

lemma LF_not_in_joinTab: "list_all plainField r \<Longrightarrow> LF \<notin> set (joinTab r)"
  by (induction r rule: joinTab.induct) (auto simp: plainField_def TAB_def LF_def)

lemma parseField_plain:
  assumes "list_all plainField (f # fs)" and "nl = [] \<or> nl = [LF]"
  shows "parseField (joinTab (f # fs) @ nl) input acc = (acc @ f # fs, None, input)"
  using assms
proof (induction fs arbitrary: f acc)
  case Nil
  then have f: "TAB \<notin> set f" "QUOTE \<notin> set f" "LF \<notin> set f"
    by (auto simp: plainField_def)
  have hd: "f @ nl = [] \<or> hd (f @ nl) \<noteq> QUOTE"
    using f Nil.prems(2) by (cases f) (auto simp: LF_def QUOTE_def)
  have ix: "IndexByte (f @ nl) TAB = None"
    using f Nil.prems(2) by (auto intro!: IndexByte_absent simp: TAB_def LF_def)
  have tk: "take (length (f @ nl) - lengthNL (f @ nl)) (f @ nl) = f"
    using f Nil.prems(2) by (auto simp: lengthNL_plain lengthNL_LF)
  show ?case
    using hd ix tk f by (subst parseField.simps) (simp add: Let_def)
next
  case (Cons g gs)
  then have f: "TAB \<notin> set f" "QUOTE \<notin> set f" "LF \<notin> set f"
    by (auto simp: plainField_def)
  let ?rest = "joinTab (g # gs) @ nl"
  have line: "joinTab (f # g # gs) @ nl = f @ TAB # ?rest" by simp
  have hd: "f @ TAB # ?rest = [] \<or> hd (f @ TAB # ?rest) \<noteq> QUOTE"
    using f by (cases f) (auto simp: TAB_def QUOTE_def)
  have ix: "IndexByte (f @ TAB # ?rest) TAB = Some (length f)"
    using f by (simp add: IndexByte_first)
  have IH: "parseField ?rest input (acc @ [f]) = ((acc @ [f]) @ g # gs, None, input)"
    using Cons.prems by (intro Cons.IH) auto
  show ?case
    unfolding line using hd ix f IH by (subst parseField.simps) (simp add: Let_def)
qed

lemma ReadSlice_line: "LF \<notin> set line \<Longrightarrow> ReadSlice (line @ LF # rest) = (line @ [LF], False, rest)"
  by (induction line) auto

lemma ReadSlice_last: "LF \<notin> set line \<Longrightarrow> ReadSlice line = (line, True, [])"
  by (induction line) auto

lemma readLine_Nil: "readLine [] = ([], True, [])"
  by (simp add: readLine_def)

lemma readLine_line:
  assumes "LF \<notin> set line" and "line \<noteq> []" and "last line \<noteq> CR"
  shows "readLine (line @ LF # rest) = (line @ [LF], False, rest)"
proof -
  have "(line @ [LF]) ! (length line - Suc 0) = last line"
    using assms(2) by (simp add: nth_append last_conv_nth)
  then show ?thesis
    using assms by (simp add: readLine_def ReadSlice_line)
qed

lemma readLine_last:
  assumes "LF \<notin> set line" and "line \<noteq> []" and "last line \<noteq> CR"
  shows "readLine line = (line, False, [])"
proof -
  have "line ! (length line - Suc 0) \<in> set line"
    using assms(2) by (intro nth_mem) (cases line, auto)
  then have "line ! (length line - Suc 0) \<noteq> LF"
    using assms(1) by auto
  then show ?thesis
    using assms by (simp add: readLine_def ReadSlice_last)
qed

lemma nextLine_Nil: "nextLine [] = ([], True, [])"
  by (subst nextLine.simps) (simp add: readLine_Nil)

lemma nextLine_line:
  assumes "LF \<notin> set line" and "line \<noteq> []" and "last line \<noteq> CR"
  shows "nextLine (line @ LF # rest) = (line @ [LF], False, rest)"
  using assms by (subst nextLine.simps) (simp add: readLine_line lengthNL_def)

lemma nextLine_last:
  assumes "LF \<notin> set line" and "line \<noteq> []" and "last line \<noteq> CR"
  shows "nextLine line = (line, False, [])"
proof -
  have "last line \<in> set line"
    using assms(2) by simp
  then have "last line \<noteq> LF"
    using assms(1) by auto
  then show ?thesis
    using assms by (subst nextLine.simps) (simp add: readLine_last lengthNL_def)
qed

lemma readRecord_line:
  assumes "plainRow r"
  shows "readRecord (joinTab r @ LF # rest) n =
           (if 0 < n \<and> length r \<noteq> n then Failed ErrFieldCount
            else Record r rest (if 0 < n then n else length r))"
proof -
  from assms obtain f fs where r: "r = f # fs"
    by (cases r) (auto simp: plainRow_def)
  have nl: "nextLine (joinTab r @ LF # rest) = (joinTab r @ [LF], False, rest)"
    using assms by (intro nextLine_line) (auto simp: plainRow_def LF_not_in_joinTab)
  have pf: "parseField (joinTab r @ [LF]) rest [] = (r, None, rest)"
    using assms parseField_plain [of f fs "[LF]" rest "[]"] by (simp add: r plainRow_def)
  show ?thesis
    by (simp add: readRecord_def nl pf Let_def)
qed

lemma readRecord_last:
  assumes "plainRow r"
  shows "readRecord (joinTab r) n =
           (if 0 < n \<and> length r \<noteq> n then Failed ErrFieldCount
            else Record r [] (if 0 < n then n else length r))"
proof -
  from assms obtain f fs where r: "r = f # fs"
    by (cases r) (auto simp: plainRow_def)
  have nl: "nextLine (joinTab r) = (joinTab r, False, [])"
    using assms by (intro nextLine_last) (auto simp: plainRow_def LF_not_in_joinTab)
  have pf: "parseField (joinTab r) [] [] = (r, None, [])"
    using assms parseField_plain [of f fs "[]" "[]" "[]"] by (simp add: r plainRow_def)
  show ?thesis
    by (simp add: readRecord_def nl pf Let_def)
qed

lemma readRecord_Nil: "readRecord [] n = AtEOF"
  by (simp add: readRecord_def nextLine_Nil)

lemma ReadAll_loop_rows:
  assumes "list_all (\<lambda>r. plainRow r \<and> length r = k) rows" and "n = 0 \<or> n = k"
    and "final = [] \<and> fin = [] \<or> plainRow final \<and> length final = k \<and> fin = [final]"
  shows "ReadAll_loop (joinLines rows @ joinTab final) n acc = Inr (acc @ rows @ fin)"
  using assms
proof (induction rows arbitrary: n acc)
  case Nil
  show ?case
  proof (cases "final = []")
    case True
    with Nil show ?thesis
      by (subst ReadAll_loop.simps) (auto simp: joinLines_def readRecord_Nil plainRow_def)
  next
    case False
    with Nil.prems have p: "plainRow final" "length final = k" "fin = [final]"
      by (auto simp: plainRow_def)
    have k: "0 < k" using p False by auto
    have "ReadAll_loop [] k (acc @ [final]) = Inr (acc @ [final])"
      by (subst ReadAll_loop.simps) (simp add: readRecord_Nil)
    then show ?thesis
      using p k Nil.prems(2)
      by (subst ReadAll_loop.simps) (auto simp: joinLines_def readRecord_last)
  qed
next
  case (Cons r rows)
  then have p: "plainRow r" "length r = k" by auto
  then have k: "0 < k" by (auto simp: plainRow_def)
  have IH: "ReadAll_loop (joinLines rows @ joinTab final) k (acc @ [r]) = Inr ((acc @ [r]) @ rows @ fin)"
    using Cons.prems by (intro Cons.IH) auto
  have split: "joinLines (r # rows) @ joinTab final = joinTab r @ LF # (joinLines rows @ joinTab final)"
    by (simp add: joinLines_def)
  show ?case
    unfolding split using p k Cons.prems(2) IH
    by (subst ReadAll_loop.simps) (auto simp: readRecord_line)
qed


lemma setColumns_fits:
  "ii + length columns \<le> length e \<Longrightarrow>
     setColumns ii columns e = Return (take ii e @ columns @ drop (ii + length columns) e)"
proof (induction columns arbitrary: ii e)
  case Nil
  then show ?case by simp
next
  case (Cons col columns)
  then have lt: "ii < length e" by simp
  have "setColumns (Suc ii) columns (e[ii := col]) =
          Return (take (Suc ii) (e[ii := col]) @ columns @
                  drop (Suc ii + length columns) (e[ii := col]))"
    using Cons.prems by (intro Cons.IH) simp
  moreover have "take (Suc ii) (e[ii := col]) = take ii e @ [col]"
    using lt by (simp add: take_Suc_conv_app_nth)
  ultimately show ?case
    using lt by simp
qed

lemma setColumns_overflow:
  "ii \<le> length e \<Longrightarrow> length e < ii + length columns \<Longrightarrow>
     setColumns ii columns e = Panic"
  by (induction columns arbitrary: ii e) auto

lemma setColumns_zeroEntry:
  "length columns \<le> 12 \<Longrightarrow> setColumns 0 columns zeroEntry = Return (padEntry columns)"
  using setColumns_fits [of 0 columns zeroEntry] by (simp add: zeroEntry_def padEntry_def)

lemma fillEntries_fits:
  "list_all (\<lambda>r. length r \<le> 12) table \<Longrightarrow> fillEntries table = Return (map padEntry table)"
  by (induction table) (auto simp: setColumns_zeroEntry)

lemma parseCSV_rows:
  assumes "list_all (\<lambda>r. plainRow r \<and> length r = k) rows" and "k \<le> 12"
    and "final = [] \<and> fin = [] \<or> plainRow final \<and> length final = k \<and> fin = [final]"
  shows "parseCSV (joinLines rows @ joinTab final) = Return (map padEntry (rows @ fin), None)"
proof -
  have "ReadAll (joinLines rows @ joinTab final) = Inr (rows @ fin)"
    unfolding ReadAll_def using ReadAll_loop_rows [OF assms(1) _ assms(3), of 0 "[]"] by simp
  moreover have "list_all (\<lambda>r. length r \<le> 12) (rows @ fin)"
    using assms by (auto simp: list_all_iff)
  ultimately show ?thesis
    by (simp add: parseCSV_def fillEntries_fits)
qed

section \<open>The pipeline stage by stage\<close>

lemma download_response:
  assumes "http_NewRequest lib ''GET'' url = Inr req0"
    and "HTTPClient_Do lib (Header_Add req0 ''If-None-Match'' etag) = Inr resp"
  shows "download lib url etag =
     (if StatusCode resp = StatusNotModified then
        (([], False, etag, None), [Header_Add req0 ''If-None-Match'' etag])
      else if StatusCode resp \<noteq> StatusOK then
        (([], False, [], Some (StatusNot200 (Status resp))),
         [Header_Add req0 ''If-None-Match'' etag])
      else (case Body_ReadAll resp of
              (body, Some e) \<Rightarrow>
                (([], False, [], Some (ReadResponseBody e)),
                 [Header_Add req0 ''If-None-Match'' etag])
            | (body, None) \<Rightarrow>
                ((body, True, Header_Get (Header resp) ''Etag'', None),
                 [Header_Add req0 ''If-None-Match'' etag])))"
  using assms by (simp add: download_def Let_def)

lemma download_OK:
  assumes "http_NewRequest lib ''GET'' url = Inr req0"
    and "HTTPClient_Do lib (Header_Add req0 ''If-None-Match'' etag) = Inr resp"
    and "StatusCode resp = StatusOK"
    and "Body_ReadAll resp = (body, None)"
  shows "download lib url etag =
           ((body, True, Header_Get (Header resp) ''Etag'', None),
            [Header_Add req0 ''If-None-Match'' etag])"
  using assms by (simp add: download_response StatusOK_def StatusNotModified_def)

lemma FetchCountry_OK:
  assumes "length cc = 2"
    and "http_NewRequest lib ''GET'' (downloadURL (strings_ToUpper lib cc)) = Inr req0"
    and "HTTPClient_Do lib (Header_Add req0 ''If-None-Match'' etag) = Inr resp"
    and "StatusCode resp = StatusOK"
    and "Body_ReadAll resp = (body, None)"
  shows "FetchCountry lib cc etag =
     (case unzipFile lib body (zippedFile (strings_ToUpper lib cc)) of
        (csvData, Some e) \<Rightarrow>
          (Return \<lparr>entries = [], modified = True,
             newEtag = Header_Get (Header resp) ''Etag'', err = Some e\<rparr>,
           [Header_Add req0 ''If-None-Match'' etag])
      | (csvData, None) \<Rightarrow>
          (case parseCSV csvData of
             Panic \<Rightarrow> (Panic, [Header_Add req0 ''If-None-Match'' etag])
           | Return (es, e) \<Rightarrow>
               (Return \<lparr>entries = es, modified = True,
                  newEtag = Header_Get (Header resp) ''Etag'', err = e\<rparr>,
                [Header_Add req0 ''If-None-Match'' etag])))"
  using assms(1) download_OK [OF assms(2-5)]
  by (simp add: FetchCountry_def normalizeCountryCode_def Let_def)

lemma unzipFile_member:
  assumes "zip_NewReader lib data = Inr files"
    and "findFile files filename = Some file"
    and "Open file = Inr rc"
    and "rc_ReadAll rc = (content, None)"
    and "rc_Close rc = None"
  shows "unzipFile lib data filename = (content, None)"
  using assms by (simp add: unzipFile_def errors_Join_def List.map_filter_def)

lemma findFile_missing: "\<forall>f\<in>set files. Name f \<noteq> filename \<Longrightarrow> findFile files filename = None"
  by (induction files) auto

lemma unzipFile_missing:
  assumes "zip_NewReader lib data = Inr files" and "\<forall>f\<in>set files. Name f \<noteq> filename"
  shows "unzipFile lib data filename = ([], Some (ZipfileMissing filename))"
  using assms by (simp add: unzipFile_def findFile_missing)

lemma parseCSV_error_no_entries: "parseCSV data = Return (es, Some e) \<Longrightarrow> es = []"
  by (auto simp: parseCSV_def split: sum.splits outcome.splits)

lemma fillEntries_overflow:
  "columns \<in> set table \<Longrightarrow> 12 < length columns \<Longrightarrow> fillEntries table = Panic"
proof (induction table)
  case Nil
  then show ?case by simp
next
  case (Cons r table)
  show ?case
  proof (cases "12 < length r")
    case True
    then have "setColumns 0 r zeroEntry = Panic"
      by (intro setColumns_overflow) (simp_all add: zeroEntry_def)
    then show ?thesis by simp
  next
    case False
    with Cons have "fillEntries table = Panic" by auto
    then show ?thesis by (simp split: outcome.splits)
  qed
qed

lemma asciiUpper_de:
  "asciiUpper CHR ''d'' = CHR ''D''" "asciiUpper CHR ''e'' = CHR ''E''"
  by code_simp+

lemma sample_fetch:
  "FetchCountry (sampleLibrary (modifiedTransport body) files) ''de'' etag =
     (case unzipFile (sampleLibrary (modifiedTransport body) files) body ''DE.txt'' of
        (csvData, Some e) \<Rightarrow>
          (Return \<lparr>entries = [], modified = True, newEtag = ''new_etag'', err = Some e\<rparr>,
           [\<lparr>Method = ''GET'', URL = ''https://download.geonames.org/export/zip/DE.zip'',
             RequestHeader = [(''If-None-Match'', etag)]\<rparr>])
      | (csvData, None) \<Rightarrow>
          (case parseCSV csvData of
             Panic \<Rightarrow>
               (Panic,
                [\<lparr>Method = ''GET'', URL = ''https://download.geonames.org/export/zip/DE.zip'',
                  RequestHeader = [(''If-None-Match'', etag)]\<rparr>])
           | Return (es, e) \<Rightarrow>
               (Return \<lparr>entries = es, modified = True, newEtag = ''new_etag'', err = e\<rparr>,
                [\<lparr>Method = ''GET'', URL = ''https://download.geonames.org/export/zip/DE.zip'',
                  RequestHeader = [(''If-None-Match'', etag)]\<rparr>])))"
  by (simp add: FetchCountry_def normalizeCountryCode_def download_def sampleLibrary_def
      sampleNewRequest_def modifiedTransport_def Header_Add_def Header_Get_def downloadURL_def
      zippedFile_def asciiUpper_de StatusOK_def StatusNotModified_def Let_def)

lemma sample_unzip:
  "unzipFile (sampleLibrary transport [memberFile ''DE.txt'' content]) body ''DE.txt'' =
     (content, None)"
  by (simp add: unzipFile_def sampleLibrary_def memberFile_def errors_Join_def
      List.map_filter_def)

lemma padEntry_full: "length r = 12 \<Longrightarrow> padEntry r = r"
  by (simp add: padEntry_def)

text \<open>The entry of a row slot by slot: the row's values by position, then empty strings.\<close>

lemma padEntry_slots:
  assumes "length columns \<le> 12"
  shows "length (padEntry columns) = 12"
    and "i < length columns \<Longrightarrow> padEntry columns ! i = columns ! i"
    and "length columns \<le> i \<Longrightarrow> i < 12 \<Longrightarrow> padEntry columns ! i = []"
  using assms by (simp_all add: padEntry_def nth_append)

lemma set_joinTab: "set (joinTab fs) \<subseteq> (\<Union>f\<in>set fs. set f) \<union> {TAB}"
  by (induction fs rule: joinTab.induct) auto

lemma TAB_in_joinTab: "2 \<le> length fs \<Longrightarrow> TAB \<in> set (joinTab fs)"
  by (induction fs rule: joinTab.induct) auto

lemma plainRow_fields:
  assumes "2 \<le> length fs" and "list_all (\<lambda>f. plainField f \<and> CR \<notin> set f) fs"
  shows "plainRow fs"
proof -
  have ne: "joinTab fs \<noteq> []"
    using TAB_in_joinTab [OF assms(1)] by auto
  then have "last (joinTab fs) \<in> set (joinTab fs)"
    by simp
  with set_joinTab [of fs] have "last (joinTab fs) \<in> (\<Union>f\<in>set fs. set f) \<union> {TAB}"
    by blast
  moreover have "CR \<notin> (\<Union>f\<in>set fs. set f) \<union> {TAB}"
    using assms(2) by (auto simp: list_all_iff CR_def TAB_def)
  ultimately have "last (joinTab fs) \<noteq> CR"
    by metis
  with ne assms(2) show ?thesis
    by (simp add: plainRow_def list_all_iff)
qed

section \<open>The claims\<close>

text \<open>
  C1. The claim: a row of more than 12 columns is parsed without failure, the columns
  beyond index 11 being ignored. The code does not do this: the inner loop of \<^verbatim>\<open>parseCSV\<close>
  assigns \<^verbatim>\<open>e[ii]\<close> for every column of the row, and for \<^verbatim>\<open>ii = 12\<close> the index is outside
  the array of twelve strings. Whenever the reader delivers a table with a row of more
  than 12 columns, \<^verbatim>\<open>parseCSV\<close> panics and returns neither entries nor an error.
\<close>

theorem parseCSV_more_than_12_columns_panics:
  assumes "ReadAll data = Inr table" and "columns \<in> set table" and "12 < length columns"
  shows "parseCSV data = Panic"
  using assms by (simp add: parseCSV_def fillEntries_overflow)

theorem parseCSV_more_than_12_columns_panics_witness:
  "ReadAll (joinTab thirteenColumns) = Inr [thirteenColumns] \<and>
   thirteenColumns \<in> set [thirteenColumns] \<and> 12 < length thirteenColumns \<and>
   parseCSV (joinTab thirteenColumns) = Panic"
proof -
  have r: "ReadAll (joinTab thirteenColumns) = Inr [thirteenColumns]"
    by code_simp
  have l: "12 < length thirteenColumns"
    by (simp add: thirteenColumns_def)
  show ?thesis
    using r l parseCSV_more_than_12_columns_panics [OF r _ l] by simp
qed

text \<open>
  C2. The claim: after a 200 response whose body is a valid archive holding the expected
  member with N tab-delimited lines, \<^verbatim>\<open>FetchCountry\<close> returns N entries, the i-th with the
  fields of the i-th line, \<^verbatim>\<open>modified = true\<close>, the token of the response's \<^verbatim>\<open>Etag\<close> header
  and no error. As stated it fails: the reader treats a double quote inside a field as a
  syntax error, so a member of one line of twelve fields, one of them holding double
  quotes, gives an error and no entry.
\<close>

theorem FetchCountry_modified_counterexample:
  "FetchCountry (sampleLibrary (modifiedTransport ''PK'') [memberFile ''DE.txt'' quotedLine])
       ''de'' ''old_etag'' =
     (Return \<lparr>entries = [], modified = True, newEtag = ''new_etag'',
        err = Some (CSV ErrBareQuote)\<rparr>,
      [\<lparr>Method = ''GET'', URL = ''https://download.geonames.org/export/zip/DE.zip'',
        RequestHeader = [(''If-None-Match'', ''old_etag'')]\<rparr>])"
proof -
  have p: "parseCSV quotedLine = Return ([], Some (CSV ErrBareQuote))"
    by code_simp
  show ?thesis
    by (simp add: sample_fetch sample_unzip p)
qed

text \<open>
  C2, amended. The claim holds when the member opens, reads and closes without error and
  its N lines are plain: no line is empty, holds a double quote or ends in a carriage
  return, all lines have the same number of tab-separated fields, at most 12, and every
  line is ended by a line feed, which the last line may lack. Then the N entries are the
  rows of fields in their order, each followed by empty strings up to twelve slots.
\<close>

theorem FetchCountry_modified_plain_rows:
  assumes "length cc = 2"
    and "http_NewRequest lib ''GET'' (downloadURL (strings_ToUpper lib cc)) = Inr req0"
    and "HTTPClient_Do lib (Header_Add req0 ''If-None-Match'' etag) = Inr resp"
    and "StatusCode resp = StatusOK"
    and "Body_ReadAll resp = (body, None)"
    and "zip_NewReader lib body = Inr files"
    and "findFile files (zippedFile (strings_ToUpper lib cc)) = Some file"
    and "Open file = Inr rc"
    and "rc_ReadAll rc = (content, None)"
    and "rc_Close rc = None"
    and "content = joinLines rows \<or>
         rows \<noteq> [] \<and> content = joinLines (butlast rows) @ joinTab (last rows)"
    and "list_all (\<lambda>r. plainRow r \<and> length r = k) rows"
    and "k \<le> 12"
  shows "FetchCountry lib cc etag =
           (Return \<lparr>entries = map padEntry rows, modified = True,
              newEtag = Header_Get (Header resp) ''Etag'', err = None\<rparr>,
            [Header_Add req0 ''If-None-Match'' etag])"
proof -
  have "parseCSV content = Return (map padEntry rows, None)"
    using assms(11)
  proof
    assume c: "content = joinLines rows"
    have "parseCSV (joinLines rows @ joinTab []) = Return (map padEntry (rows @ []), None)"
      using assms(12,13) by (intro parseCSV_rows [where k = k]) simp_all
    with c show ?thesis by simp
  next
    assume c: "rows \<noteq> [] \<and> content = joinLines (butlast rows) @ joinTab (last rows)"
    then have rows: "butlast rows @ [last rows] = rows" by simp
    have all: "list_all (\<lambda>r. plainRow r \<and> length r = k) (butlast rows @ [last rows])"
      using assms(12) rows by simp
    have "parseCSV (joinLines (butlast rows) @ joinTab (last rows)) =
            Return (map padEntry (butlast rows @ [last rows]), None)"
      using all assms(13) by (intro parseCSV_rows [where k = k]) simp_all
    with c rows show ?thesis by simp
  qed
  with unzipFile_member [OF assms(6-10)] show ?thesis
    by (simp add: FetchCountry_OK [OF assms(1-5)])
qed

theorem FetchCountry_modified_plain_rows_witness:
  "list_all (\<lambda>r. plainRow r \<and> length r = 12) sampleRows \<and>
   FetchCountry (sampleLibrary (modifiedTransport ''PK'') [memberFile ''DE.txt'' (joinLines sampleRows)])
       ''de'' ''old_etag'' =
     (Return \<lparr>entries = sampleRows, modified = True, newEtag = ''new_etag'', err = None\<rparr>,
      [\<lparr>Method = ''GET'', URL = ''https://download.geonames.org/export/zip/DE.zip'',
        RequestHeader = [(''If-None-Match'', ''old_etag'')]\<rparr>])"
proof -
  have rows: "list_all (\<lambda>r. plainRow r \<and> length r = 12) sampleRows"
    by (simp add: sampleRows_def plainRow_def plainField_def TAB_def QUOTE_def LF_def CR_def)
  have pad: "map padEntry sampleRows = sampleRows"
    by (simp add: sampleRows_def padEntry_def)
  show ?thesis
    using rows pad
      FetchCountry_modified_plain_rows [of "''de''"
        "sampleLibrary (modifiedTransport ''PK'') [memberFile ''DE.txt'' (joinLines sampleRows)]"
        "\<lparr>Method = ''GET'', URL = ''https://download.geonames.org/export/zip/DE.zip'',
          RequestHeader = []\<rparr>" "''old_etag''"
        "\<lparr>StatusCode = StatusOK, Status = [],
            Header = (\<lambda>k. if k = ''Etag'' then [''new_etag''] else []),
            Body_ReadAll = (''PK'', None)\<rparr>" "''PK''"
        "[memberFile ''DE.txt'' (joinLines sampleRows)]"
        "memberFile ''DE.txt'' (joinLines sampleRows)"
        "\<lparr>rc_ReadAll = (joinLines sampleRows, None), rc_Close = None\<rparr>"
        "joinLines sampleRows" sampleRows 12]
    by (simp add: sampleLibrary_def sampleNewRequest_def modifiedTransport_def
        downloadURL_def zippedFile_def Header_Add_def Header_Get_def asciiUpper_de
        memberFile_def)
qed

text \<open>
  C3. When the response has status 304 Not Modified, \<^verbatim>\<open>FetchCountry\<close> returns no entries,
  \<^verbatim>\<open>modified = false\<close>, the token that was sent and no error, after exactly one request
  (the one carrying the token in \<^verbatim>\<open>If-None-Match\<close>). The archive reader is not consulted:
  the result is the same whatever reader \<open>z\<close> stands in its place. A response exists only
  when the country code has two bytes and the request could be built, which the first
  two hypotheses say.
\<close>

theorem FetchCountry_not_modified:
  assumes "length cc = 2"
    and "http_NewRequest lib ''GET'' (downloadURL (strings_ToUpper lib cc)) = Inr req0"
    and "HTTPClient_Do lib (Header_Add req0 ''If-None-Match'' etag) = Inr resp"
    and "StatusCode resp = StatusNotModified"
  shows "FetchCountry (lib\<lparr>zip_NewReader := z\<rparr>) cc etag =
           (Return \<lparr>entries = [], modified = False, newEtag = etag, err = None\<rparr>,
            [Header_Add req0 ''If-None-Match'' etag])"
proof -
  let ?lib = "lib\<lparr>zip_NewReader := z\<rparr>"
  have "download ?lib (downloadURL (strings_ToUpper lib cc)) etag =
          (([], False, etag, None), [Header_Add req0 ''If-None-Match'' etag])"
    using assms download_response [of ?lib _ req0 etag resp] by simp
  then show ?thesis
    using assms(1) by (simp add: FetchCountry_def normalizeCountryCode_def)
qed

theorem FetchCountry_not_modified_witness:
  "FetchCountry (sampleLibrary notModifiedTransport []) ''de'' ''current_etag'' =
     (Return \<lparr>entries = [], modified = False, newEtag = ''current_etag'', err = None\<rparr>,
      [\<lparr>Method = ''GET'', URL = ''https://download.geonames.org/export/zip/DE.zip'',
        RequestHeader = [(''If-None-Match'', ''current_etag'')]\<rparr>])"
  using FetchCountry_not_modified [of "''de''" "sampleLibrary notModifiedTransport []"
      "\<lparr>Method = ''GET'', URL = ''https://download.geonames.org/export/zip/DE.zip'',
        RequestHeader = []\<rparr>" "''current_etag''"
      "\<lparr>StatusCode = StatusNotModified, Status = [], Header = (\<lambda>k. []),
        Body_ReadAll = ([], None)\<rparr>" "\<lambda>data. Inr []"]
  by (simp add: sampleLibrary_def sampleNewRequest_def notModifiedTransport_def
      downloadURL_def Header_Add_def asciiUpper_de)

text \<open>
  C4. For a country code whose length in bytes is not 2, \<^verbatim>\<open>FetchCountry\<close> returns the
  error that carries the code as it was given and its length, and makes no network call
  (the list of requests is empty). A code of 2 bytes, whatever the bytes, is normalized
  without error to what \<^verbatim>\<open>strings.ToUpper\<close> makes of it.
\<close>

theorem FetchCountry_invalid_country_code:
  "(length cc \<noteq> 2 \<longrightarrow>
      FetchCountry lib cc etag =
        (Return \<lparr>entries = [], modified = False, newEtag = [],
           err = Some (CountryCodeBytes cc (length cc) 2)\<rparr>, [])) \<and>
   (length cc = 2 \<longrightarrow> normalizeCountryCode lib cc = (strings_ToUpper lib cc, None))"
  by (simp add: FetchCountry_def normalizeCountryCode_def)

theorem FetchCountry_invalid_country_code_witness:
  "length ''deu'' \<noteq> 2 \<and>
   FetchCountry (sampleLibrary notModifiedTransport []) ''deu'' ''current_etag'' =
     (Return \<lparr>entries = [], modified = False, newEtag = [],
        err = Some (CountryCodeBytes ''deu'' 3 2)\<rparr>, []) \<and>
   length ''e!'' = 2 \<and>
   normalizeCountryCode (sampleLibrary notModifiedTransport []) ''e!'' = (''E!'', None)"
proof -
  have up: "asciiUpper CHR ''!'' = CHR ''!''"
    by code_simp
  show ?thesis
    using FetchCountry_invalid_country_code
        [of "''deu''" "sampleLibrary notModifiedTransport []" "''current_etag''"]
      FetchCountry_invalid_country_code
        [of "''e!''" "sampleLibrary notModifiedTransport []" "''current_etag''"]
    by (simp add: sampleLibrary_def up asciiUpper_de)
qed

text \<open>
  C5. Whenever \<^verbatim>\<open>FetchCountry\<close> returns with an error, it returns no entries, at whichever
  stage the error arose: invalid country code, request, transport, status, body, archive,
  member or parsing.
\<close>

theorem FetchCountry_error_no_entries:
  assumes "FetchCountry lib cc etag = (Return r, calls)" and "err r \<noteq> None"
  shows "entries r = []"
  using assms
  by (auto simp: FetchCountry_def Let_def
      split: prod.splits option.splits if_splits outcome.splits
      dest: parseCSV_error_no_entries)

theorem FetchCountry_error_no_entries_witness:
  "fst (FetchCountry (sampleLibrary (modifiedTransport ''PK'') [memberFile ''DE.txt'' quotedLine])
      ''de'' []) =
     Return \<lparr>entries = [], modified = True, newEtag = ''new_etag'',
       err = Some (CSV ErrBareQuote)\<rparr>"
proof -
  let ?r = "\<lparr>entries = [], modified = True, newEtag = ''new_etag'',
       err = Some (CSV ErrBareQuote)\<rparr>"
  have p: "parseCSV quotedLine = Return ([], Some (CSV ErrBareQuote))"
    by code_simp
  have f: "FetchCountry (sampleLibrary (modifiedTransport ''PK'') [memberFile ''DE.txt'' quotedLine])
      ''de'' [] = (Return ?r,
        [\<lparr>Method = ''GET'', URL = ''https://download.geonames.org/export/zip/DE.zip'',
          RequestHeader = [(''If-None-Match'', [])]\<rparr>])"
    by (simp add: sample_fetch sample_unzip p)
  have "entries ?r = []"
    using FetchCountry_error_no_entries [OF f] by simp
  with f show ?thesis by simp
qed

text \<open>
  C6. When the fetch succeeds with status 200 (the body is read without error) and then
  the extraction fails, or the extraction succeeds and the parsing fails, \<^verbatim>\<open>FetchCountry\<close>
  returns that error with no entries, \<^verbatim>\<open>modified = true\<close> and the token of the response's
  \<^verbatim>\<open>Etag\<close> header, not the token the caller sent.
\<close>

theorem FetchCountry_error_after_OK:
  assumes "length cc = 2"
    and "http_NewRequest lib ''GET'' (downloadURL (strings_ToUpper lib cc)) = Inr req0"
    and "HTTPClient_Do lib (Header_Add req0 ''If-None-Match'' etag) = Inr resp"
    and "StatusCode resp = StatusOK"
    and "Body_ReadAll resp = (body, None)"
    and "unzipFile lib body (zippedFile (strings_ToUpper lib cc)) = (csvData, e1)"
    and "e1 = Some e \<or> e1 = None \<and> parseCSV csvData = Return (es, Some e)"
  shows "FetchCountry lib cc etag =
           (Return \<lparr>entries = [], modified = True,
              newEtag = Header_Get (Header resp) ''Etag'', err = Some e\<rparr>,
            [Header_Add req0 ''If-None-Match'' etag])"
  using assms(6,7) parseCSV_error_no_entries [of csvData es e]
  by (auto simp: FetchCountry_OK [OF assms(1-5)])

theorem FetchCountry_error_after_OK_witness:
  "FetchCountry (sampleLibrary (modifiedTransport ''PK'') []) ''de'' ''old_etag'' =
     (Return \<lparr>entries = [], modified = True, newEtag = ''new_etag'',
        err = Some (ZipfileMissing ''DE.txt'')\<rparr>,
      [\<lparr>Method = ''GET'', URL = ''https://download.geonames.org/export/zip/DE.zip'',
        RequestHeader = [(''If-None-Match'', ''old_etag'')]\<rparr>]) \<and>
   FetchCountry (sampleLibrary (modifiedTransport ''PK'') [memberFile ''DE.txt'' raggedLines])
       ''de'' ''old_etag'' =
     (Return \<lparr>entries = [], modified = True, newEtag = ''new_etag'',
        err = Some (CSV ErrFieldCount)\<rparr>,
      [\<lparr>Method = ''GET'', URL = ''https://download.geonames.org/export/zip/DE.zip'',
        RequestHeader = [(''If-None-Match'', ''old_etag'')]\<rparr>])"
proof -
  let ?req0 = "\<lparr>Method = ''GET'', URL = ''https://download.geonames.org/export/zip/DE.zip'',
        RequestHeader = []\<rparr>"
  let ?resp = "\<lparr>StatusCode = StatusOK, Status = [],
          Header = (\<lambda>k. if k = ''Etag'' then [''new_etag''] else []),
          Body_ReadAll = (''PK'', None)\<rparr>"
  have p: "parseCSV raggedLines = Return ([], Some (CSV ErrFieldCount))"
    by code_simp
  have u: "unzipFile (sampleLibrary (modifiedTransport ''PK'') []) ''PK'' ''DE.txt'' =
             ([], Some (ZipfileMissing ''DE.txt''))"
    by (simp add: unzipFile_def sampleLibrary_def)
  show ?thesis
    using FetchCountry_error_after_OK [of "''de''" "sampleLibrary (modifiedTransport ''PK'') []"
        ?req0 "''old_etag''" ?resp "''PK''" "[]" "Some (ZipfileMissing ''DE.txt'')"
        "ZipfileMissing ''DE.txt''" "[]"]
      FetchCountry_error_after_OK [of "''de''"
        "sampleLibrary (modifiedTransport ''PK'') [memberFile ''DE.txt'' raggedLines]"
        ?req0 "''old_etag''" ?resp "''PK''" raggedLines None "CSV ErrFieldCount" "[]"]
      p u
    by (simp add: sampleLibrary_def sampleNewRequest_def modifiedTransport_def
        downloadURL_def zippedFile_def Header_Add_def Header_Get_def asciiUpper_de
        sample_unzip [unfolded sampleLibrary_def])
qed

text \<open>
  C7. The claim: every parsed row gives exactly one entry holding its values by position,
  the slots after the last column being empty. For rows of at most 12 columns this is
  what the code does (\<open>fillEntries_fits\<close>, \<open>parseCSV_rows\<close>, with \<open>padEntry\<close> the entry
  of a row, described slot by slot in \<open>padEntry_slots\<close>). A row of 13 columns gives no entry: the same out-of-range assignment as in
  C1 panics, here on a line ended by a line feed.
\<close>

theorem parseCSV_row_without_entry:
  "parseCSV (joinTab thirteenColumns @ [LF]) = Panic"
  by code_simp

text \<open>
  C8. When the archive of a 200 response is valid and none of its files has the name
  \<^verbatim>\<open><CODE>.txt\<close>, with the code in upper case, the extraction fails with the error that
  names this file, and \<^verbatim>\<open>FetchCountry\<close> returns this error and no entries.
\<close>

theorem FetchCountry_member_missing:
  assumes "length cc = 2"
    and "http_NewRequest lib ''GET'' (downloadURL (strings_ToUpper lib cc)) = Inr req0"
    and "HTTPClient_Do lib (Header_Add req0 ''If-None-Match'' etag) = Inr resp"
    and "StatusCode resp = StatusOK"
    and "Body_ReadAll resp = (body, None)"
    and "zip_NewReader lib body = Inr files"
    and "\<forall>f\<in>set files. Name f \<noteq> strings_ToUpper lib cc @ ''.txt''"
  shows "unzipFile lib body (strings_ToUpper lib cc @ ''.txt'') =
           ([], Some (ZipfileMissing (strings_ToUpper lib cc @ ''.txt''))) \<and>
         FetchCountry lib cc etag =
           (Return \<lparr>entries = [], modified = True,
              newEtag = Header_Get (Header resp) ''Etag'',
              err = Some (ZipfileMissing (strings_ToUpper lib cc @ ''.txt''))\<rparr>,
            [Header_Add req0 ''If-None-Match'' etag])"
  using unzipFile_missing [OF assms(6,7)]
  by (simp add: FetchCountry_OK [OF assms(1-5)] zippedFile_def)

theorem FetchCountry_member_missing_witness:
  "unzipFile (sampleLibrary (modifiedTransport ''PK'') [memberFile ''de.txt'' [], memberFile ''readme.txt'' ''x''])
      ''PK'' ''DE.txt'' = ([], Some (ZipfileMissing ''DE.txt'')) \<and>
   FetchCountry (sampleLibrary (modifiedTransport ''PK'') [memberFile ''de.txt'' [], memberFile ''readme.txt'' ''x''])
      ''de'' [] =
     (Return \<lparr>entries = [], modified = True, newEtag = ''new_etag'',
        err = Some (ZipfileMissing ''DE.txt'')\<rparr>,
      [\<lparr>Method = ''GET'', URL = ''https://download.geonames.org/export/zip/DE.zip'',
        RequestHeader = [(''If-None-Match'', [])]\<rparr>])"
  using FetchCountry_member_missing [of "''de''"
      "sampleLibrary (modifiedTransport ''PK'') [memberFile ''de.txt'' [], memberFile ''readme.txt'' ''x'']"
      "\<lparr>Method = ''GET'', URL = ''https://download.geonames.org/export/zip/DE.zip'',
        RequestHeader = []\<rparr>" "[]"
      "\<lparr>StatusCode = StatusOK, Status = [],
          Header = (\<lambda>k. if k = ''Etag'' then [''new_etag''] else []),
          Body_ReadAll = (''PK'', None)\<rparr>" "''PK''"
      "[memberFile ''de.txt'' [], memberFile ''readme.txt'' ''x'']"]
  by (simp add: sampleLibrary_def sampleNewRequest_def modifiedTransport_def
      downloadURL_def Header_Add_def Header_Get_def asciiUpper_de memberFile_def)

text \<open>
  C9. For a line of 12 fields without tab, double quote, line feed and carriage return,
  parsing the line (with or without a line feed at its end) gives one entry, and joining
  the twelve fields of this entry with tabs gives the line again. The fields need not
  even be populated.
\<close>

theorem parseCSV_round_trip:
  assumes "length fs = 12"
    and "list_all (\<lambda>f. plainField f \<and> CR \<notin> set f) fs"
    and "line = joinTab fs"
  shows "(\<exists>e. parseCSV line = Return ([e], None) \<and> length e = 12 \<and> joinTab e = line) \<and>
         (\<exists>e. parseCSV (line @ [LF]) = Return ([e], None) \<and> length e = 12 \<and> joinTab e = line)"
proof -
  have row: "plainRow fs"
    using assms(1,2) by (intro plainRow_fields) simp_all
  have "parseCSV (joinLines [] @ joinTab fs) = Return (map padEntry ([] @ [fs]), None)"
    using row assms(1) by (intro parseCSV_rows [where k = 12]) simp_all
  then have a: "parseCSV line = Return ([fs], None)"
    using assms(1,3) by (simp add: joinLines_def padEntry_full)
  have "parseCSV (joinLines [fs] @ joinTab []) = Return (map padEntry ([fs] @ []), None)"
    using row assms(1) by (intro parseCSV_rows [where k = 12]) simp_all
  then have b: "parseCSV (line @ [LF]) = Return ([fs], None)"
    using assms(1,3) by (simp add: joinLines_def padEntry_full)
  from a b assms(1,3) show ?thesis by simp
qed

theorem parseCSV_round_trip_witness:
  "length populatedFields = 12 \<and>
   list_all (\<lambda>f. f \<noteq> [] \<and> plainField f \<and> CR \<notin> set f) populatedFields \<and>
   (\<exists>e. parseCSV (joinTab populatedFields) = Return ([e], None) \<and> length e = 12 \<and>
        joinTab e = joinTab populatedFields) \<and>
   (\<exists>e. parseCSV (joinTab populatedFields @ [LF]) = Return ([e], None) \<and> length e = 12 \<and>
        joinTab e = joinTab populatedFields)"
proof -
  have l: "length populatedFields = 12"
    by (simp add: populatedFields_def)
  have p: "list_all (\<lambda>f. f \<noteq> [] \<and> plainField f \<and> CR \<notin> set f) populatedFields"
    by (simp add: populatedFields_def plainField_def TAB_def QUOTE_def LF_def CR_def)
  then have p': "list_all (\<lambda>f. plainField f \<and> CR \<notin> set f) populatedFields"
    by (simp add: list_all_iff)
  show ?thesis
    using l p parseCSV_round_trip [OF l p' refl] by simp
qed

text \<open>
  C10. Parsing no bytes returns no entries and no error; so a 200 response whose archive
  member is empty (and opens, reads and closes without error) yields no entries,
  \<^verbatim>\<open>modified = true\<close>, the token of the response and no error.
\<close>

theorem parseCSV_empty:
  assumes "length cc = 2"
    and "http_NewRequest lib ''GET'' (downloadURL (strings_ToUpper lib cc)) = Inr req0"
    and "HTTPClient_Do lib (Header_Add req0 ''If-None-Match'' etag) = Inr resp"
    and "StatusCode resp = StatusOK"
    and "Body_ReadAll resp = (body, None)"
    and "zip_NewReader lib body = Inr files"
    and "findFile files (zippedFile (strings_ToUpper lib cc)) = Some file"
    and "Open file = Inr rc"
    and "rc_ReadAll rc = ([], None)"
    and "rc_Close rc = None"
  shows "parseCSV [] = Return ([], None) \<and>
         FetchCountry lib cc etag =
           (Return \<lparr>entries = [], modified = True,
              newEtag = Header_Get (Header resp) ''Etag'', err = None\<rparr>,
            [Header_Add req0 ''If-None-Match'' etag])"
proof -
  have p: "parseCSV [] = Return ([], None)"
    by code_simp
  show ?thesis
    using p unzipFile_member [OF assms(6-10)]
    by (simp add: FetchCountry_OK [OF assms(1-5)])
qed

theorem parseCSV_empty_witness:
  "parseCSV [] = Return ([], None) \<and>
   FetchCountry (sampleLibrary (modifiedTransport ''PK'') [memberFile ''DE.txt'' []]) ''de'' [] =
     (Return \<lparr>entries = [], modified = True, newEtag = ''new_etag'', err = None\<rparr>,
      [\<lparr>Method = ''GET'', URL = ''https://download.geonames.org/export/zip/DE.zip'',
        RequestHeader = [(''If-None-Match'', [])]\<rparr>])"
  using parseCSV_empty [of "''de''"
      "sampleLibrary (modifiedTransport ''PK'') [memberFile ''DE.txt'' []]"
      "\<lparr>Method = ''GET'', URL = ''https://download.geonames.org/export/zip/DE.zip'',
        RequestHeader = []\<rparr>" "[]"
      "\<lparr>StatusCode = StatusOK, Status = [],
          Header = (\<lambda>k. if k = ''Etag'' then [''new_etag''] else []),
          Body_ReadAll = (''PK'', None)\<rparr>" "''PK''"
      "[memberFile ''DE.txt'' []]" "memberFile ''DE.txt'' []"
      "\<lparr>rc_ReadAll = ([], None), rc_Close = None\<rparr>"]
  by (simp add: sampleLibrary_def sampleNewRequest_def modifiedTransport_def
      downloadURL_def zippedFile_def Header_Add_def Header_Get_def asciiUpper_de
      memberFile_def)

end
